theory Spec2Isabelle
  imports Main
begin

section \<open>pyref.py: an interactive terminal walkthrough\<close>

text \<open>
  The script \<^verbatim>\<open>py.py\<close> reads single keys in raw terminal mode, reads whole lines with
  \<^verbatim>\<open>input()\<close>, prints to the terminal and reads and writes two files under
  \<^verbatim>\<open>/tmp\<close>. The embedding passes an explicit \<open>world\<close> through every function.
  Exceptions are values (\<open>Inl\<close> of an \<open>error\<close>); a loop that can spin for ever is a
  \<^theory_text>\<open>partial_function\<close> into \<open>option\<close>, where \<open>None\<close> is "never returns".

  Text is a \<open>string\<close> whose characters stand for the code points 0 to 255; the Python
  string methods below are written out for that range.
\<close>

subsection \<open>Python string methods\<close>

abbreviation LF :: char where "LF \<equiv> CHR 0x0A"
abbreviation CR :: char where "CR \<equiv> CHR 0x0D"
abbreviation ESC :: char where "ESC \<equiv> CHR 0x1B"
abbreviation ETX :: char where "ETX \<equiv> CHR 0x03"

definition py_ord :: "char \<Rightarrow> nat" where
  "py_ord c = of_char c"

text \<open>\<^verbatim>\<open>str.isspace\<close> on one character: 9 to 13, 28 to 32, 0x85 and 0xA0.\<close>

definition py_isspace :: "char \<Rightarrow> bool" where
  "py_isspace c = (let n = py_ord c in
     (9 \<le> n \<and> n \<le> 13) \<or> (28 \<le> n \<and> n \<le> 32) \<or> n = 133 \<or> n = 160)"

text \<open>The line boundaries of \<^verbatim>\<open>str.splitlines\<close>: LF, VT, FF, CR, FS, GS, RS, NEL.\<close>

definition is_linebreak :: "char \<Rightarrow> bool" where
  "is_linebreak c = (let n = py_ord c in
     (10 \<le> n \<and> n \<le> 13) \<or> (28 \<le> n \<and> n \<le> 30) \<or> n = 133)"

fun py_splitlines :: "string \<Rightarrow> string list" where
  "py_splitlines [] = []"
| "py_splitlines (c # cs) =
     (if is_linebreak c then
        (case cs of
           [] \<Rightarrow> [[]]
         | d # ds \<Rightarrow> if c = CR \<and> d = LF then [] # py_splitlines ds
                    else [] # py_splitlines cs)
      else
        (case py_splitlines cs of
           [] \<Rightarrow> [[c]]
         | l # ls \<Rightarrow> (c # l) # ls))"

definition py_lstrip :: "string \<Rightarrow> string" where
  "py_lstrip s = dropWhile py_isspace s"

definition py_rstrip :: "string \<Rightarrow> string" where
  "py_rstrip s = rev (dropWhile py_isspace (rev s))"

definition py_strip :: "string \<Rightarrow> string" where
  "py_strip s = py_rstrip (py_lstrip s)"


definition py_endswith :: "string \<Rightarrow> string \<Rightarrow> bool" where
  "py_endswith s p = (length p \<le> length s \<and> drop (length s - length p) s = p)"




text \<open>\<^verbatim>\<open>sep.join(xs)\<close>.\<close>

fun py_join :: "string \<Rightarrow> string list \<Rightarrow> string" where
  "py_join sep [] = []"
| "py_join sep [x] = x"
| "py_join sep (x # y # ys) = x @ sep @ py_join sep (y # ys)"

text \<open>\<^verbatim>\<open>str.lower\<close>: A to Z and the Latin-1 capitals 0xC0 to 0xDE (0xD7 apart) move up by 32.\<close>

definition py_lower_char :: "char \<Rightarrow> char" where
  "py_lower_char c = (let n = py_ord c in
     if (65 \<le> n \<and> n \<le> 90) \<or> (192 \<le> n \<and> n \<le> 222 \<and> n \<noteq> 215)
     then char_of (n + 32) else c)"

definition py_lower :: "string \<Rightarrow> string" where
  "py_lower s = map py_lower_char s"

text \<open>
  \<^verbatim>\<open>str.isdigit\<close>: true on a non-empty string of digit characters, which below 256
  are 0 to 9 and the superscripts 0xB2, 0xB3, 0xB9.
\<close>

definition is_ascii_digit :: "char \<Rightarrow> bool" where
  "is_ascii_digit c = (48 \<le> py_ord c \<and> py_ord c \<le> 57)"

definition py_isdigit_char :: "char \<Rightarrow> bool" where
  "py_isdigit_char c = (is_ascii_digit c \<or> py_ord c = 178 \<or> py_ord c = 179 \<or> py_ord c = 185)"

definition py_isdigit :: "string \<Rightarrow> bool" where
  "py_isdigit s = (s \<noteq> [] \<and> list_all py_isdigit_char s)"

subsection \<open>Errors\<close>

datatype error =
  KeyboardInterrupt
| FileNotFoundError
| PermissionError
| ValueError
| EOFError

subsection \<open>The world\<close>

text \<open>
  The terminal attributes that \<^verbatim>\<open>tty.setraw\<close> switches off, and a number standing for
  all the others.
\<close>

record termios =
  echo :: bool
  icanon :: bool
  isig :: bool
  opost :: bool
  icrnl :: bool
  other_attrs :: nat

definition setraw :: "termios \<Rightarrow> termios" where
  "setraw m = m\<lparr>echo := False, icanon := False, isig := False, opost := False, icrnl := False\<rparr>"

datatype tty_call = Tcgetattr | Setraw | Tcsetattr termios

text \<open>
  A file under \<^verbatim>\<open>/tmp\<close> is missing, a regular file with its text, or a file of
  another user that this process may neither read, write nor remove.
\<close>

datatype file_state = Missing | File string | NoAccess

text \<open>What a call of \<^verbatim>\<open>input()\<close> receives: a line, or Ctrl-C typed at the prompt.\<close>

datatype line_in = Line string | Interrupt

record world =
  term_mode :: termios
  tty_log :: "tty_call list"
  stdin_keys :: "char list"
  stdin_lines :: "line_in list"
  stdout :: string
  tmp_file :: file_state
  marker_file :: file_state
  shell :: "string \<Rightarrow> nat \<times> string"
  has_requests :: bool
  GLOBAL_VAR :: string

text \<open>
  \<open>stdin_keys\<close> are the characters that raw reads receive, \<open>stdin_lines\<close> the lines
  the terminal hands to \<^verbatim>\<open>input()\<close>; when either runs out, standard input is at its
  end. \<open>stdout\<close> is all the text written to the terminal. \<open>shell\<close> gives the exit
  status and output of a shell command. \<open>tty_log\<close> records the termios calls made.
  Standard input is a terminal, as the script requires: \<^verbatim>\<open>tcgetattr\<close> and
  \<^verbatim>\<open>tcsetattr\<close> do not fail.
\<close>

subsection \<open>Computations\<close>

type_synonym 'a io = "world \<Rightarrow> (error + 'a) \<times> world"

definition io_return :: "'a \<Rightarrow> 'a io" where
  "io_return x w = (Inr x, w)"

definition io_raise :: "error \<Rightarrow> 'a io" where
  "io_raise e w = (Inl e, w)"

definition io_bind :: "'a io \<Rightarrow> ('a \<Rightarrow> 'b io) \<Rightarrow> 'b io" where
  "io_bind m f w = (case m w of (Inl e, w') \<Rightarrow> (Inl e, w') | (Inr x, w') \<Rightarrow> f x w')"

text \<open>\<^verbatim>\<open>try: body finally: fin\<close>: \<open>fin\<close> runs whether \<open>body\<close> returned or raised.\<close>

definition try_finally :: "'a io \<Rightarrow> (world \<Rightarrow> world) \<Rightarrow> 'a io" where
  "try_finally body fin w = (case body w of (r, w') \<Rightarrow> (r, fin w'))"

definition py_write :: "string \<Rightarrow> world \<Rightarrow> world" where
  "py_write s w = w\<lparr>stdout := stdout w @ s\<rparr>"

definition py_print :: "string \<Rightarrow> world \<Rightarrow> world" where
  "py_print s w = py_write (s @ [LF]) w"

subsection \<open>Low-level terminal helpers\<close>

definition tcgetattr :: "world \<Rightarrow> termios \<times> world" where
  "tcgetattr w = (term_mode w, w\<lparr>tty_log := tty_log w @ [Tcgetattr]\<rparr>)"

definition tty_setraw :: "world \<Rightarrow> world" where
  "tty_setraw w = w\<lparr>term_mode := setraw (term_mode w), tty_log := tty_log w @ [Setraw]\<rparr>"

definition tcsetattr :: "termios \<Rightarrow> world \<Rightarrow> world" where
  "tcsetattr m w = w\<lparr>term_mode := m, tty_log := tty_log w @ [Tcsetattr m]\<rparr>"

text \<open>\<^verbatim>\<open>sys.stdin.read(1)\<close>: the next character, or the empty string at end of input.\<close>

definition stdin_read1 :: "world \<Rightarrow> string \<times> world" where
  "stdin_read1 w = (case stdin_keys w of
       [] \<Rightarrow> ([], w)
     | c # cs \<Rightarrow> ([c], w\<lparr>stdin_keys := cs\<rparr>))"

definition get_single_key_body :: "(string \<times> nat) io" where
  "get_single_key_body w =
     (let w1 = tty_setraw w;
          (ch, w2) = stdin_read1 w1
      in case ch of
           [] \<Rightarrow> io_return ([], 0) w2
         | c # _ \<Rightarrow> if py_ord c = 3 then io_raise KeyboardInterrupt w2
                    else io_return (ch, py_ord c) w2)"

definition get_single_key :: "(string \<times> nat) io" where
  "get_single_key w =
     (let (old_settings, w1) = tcgetattr w
      in try_finally get_single_key_body (tcsetattr old_settings) w1)"





subsection \<open>Demo display helper\<close>


subsection \<open>Files\<close>

datatype path = TMP_FILE | MARKER_FILE

definition path_str :: "path \<Rightarrow> string" where
  "path_str p = (case p of TMP_FILE \<Rightarrow> ''/tmp/pyref_example.txt''
                         | MARKER_FILE \<Rightarrow> ''/tmp/pyref_marker'')"

definition file_at :: "path \<Rightarrow> world \<Rightarrow> file_state" where
  "file_at p w = (case p of TMP_FILE \<Rightarrow> tmp_file w | MARKER_FILE \<Rightarrow> marker_file w)"

definition set_file :: "path \<Rightarrow> file_state \<Rightarrow> world \<Rightarrow> world" where
  "set_file p f w = (case p of TMP_FILE \<Rightarrow> w\<lparr>tmp_file := f\<rparr>
                             | MARKER_FILE \<Rightarrow> w\<lparr>marker_file := f\<rparr>)"

text \<open>Reading in text mode turns CR LF and a lone CR into LF.\<close>

fun universal_newlines :: "string \<Rightarrow> string" where
  "universal_newlines [] = []"
| "universal_newlines [c] = (if c = CR then [LF] else [c])"
| "universal_newlines (c # d # cs) =
     (if c = CR then (if d = LF then LF # universal_newlines cs
                      else LF # universal_newlines (d # cs))
      else c # universal_newlines (d # cs))"

definition read_text :: "path \<Rightarrow> string io" where
  "read_text p w = (case file_at p w of
       Missing \<Rightarrow> (Inl FileNotFoundError, w)
     | NoAccess \<Rightarrow> (Inl PermissionError, w)
     | File s \<Rightarrow> (Inr (universal_newlines s), w))"

definition write_text :: "path \<Rightarrow> string \<Rightarrow> unit io" where
  "write_text p s w = (case file_at p w of
       NoAccess \<Rightarrow> (Inl PermissionError, w)
     | _ \<Rightarrow> (Inr (), set_file p (File s) w))"

text \<open>\<^verbatim>\<open>with p.open("a") as f: f.write(s)\<close>.\<close>

definition append_to :: "path \<Rightarrow> string \<Rightarrow> unit io" where
  "append_to p s w = (case file_at p w of
       NoAccess \<Rightarrow> (Inl PermissionError, w)
     | Missing \<Rightarrow> (Inr (), set_file p (File s) w)
     | File old \<Rightarrow> (Inr (), set_file p (File (old @ s)) w))"

definition path_exists :: "path \<Rightarrow> world \<Rightarrow> bool" where
  "path_exists p w = (file_at p w \<noteq> Missing)"


subsection \<open>Numbers and \<^verbatim>\<open>repr\<close>\<close>

fun digits_ok :: "string \<Rightarrow> bool" where
  "digits_ok [] = False"
| "digits_ok [c] = is_ascii_digit c"
| "digits_ok (c # d # cs) =
     (is_ascii_digit c \<and> (if d = CHR ''_'' then digits_ok cs else digits_ok (d # cs)))"

definition digits_value :: "string \<Rightarrow> int" where
  "digits_value ds =
     foldl (\<lambda>a c. 10 * a + int (py_ord c - 48)) 0 (filter (\<lambda>c. c \<noteq> CHR ''_'') ds)"

text \<open>
  \<^verbatim>\<open>int(s)\<close>: white space around, an optional sign, then digits with single
  underscores between them; anything else is a \<open>ValueError\<close>. (The interpreter's
  bound on the number of digits is left out.)
\<close>

definition py_int :: "string \<Rightarrow> error + int" where
  "py_int s =
     (let t = py_strip s;
          (neg, ds) = (case t of
                         [] \<Rightarrow> (False, [])
                       | c # r \<Rightarrow> if c = CHR ''-'' then (True, r)
                                  else if c = CHR ''+'' then (False, r)
                                  else (False, t))
      in if digits_ok ds then Inr (if neg then - digits_value ds else digits_value ds)
         else Inl ValueError)"

function py_str_nat :: "nat \<Rightarrow> string" where
  "py_str_nat n = (if n < 10 then [char_of (48 + n)]
                   else py_str_nat (n div 10) @ [char_of (48 + n mod 10)])"
  by pat_completeness auto
termination
  by (relation "measure id") auto


definition py_isprintable :: "char \<Rightarrow> bool" where
  "py_isprintable c = (let n = py_ord c in (32 \<le> n \<and> n < 127) \<or> (161 \<le> n \<and> n \<noteq> 173))"

definition hex_digit :: "nat \<Rightarrow> char" where
  "hex_digit n = ''0123456789abcdef'' ! (n mod 16)"

definition repr_char :: "char \<Rightarrow> char \<Rightarrow> string" where
  "repr_char q c =
     (if c = q \<or> c = CHR 0x5C then [CHR 0x5C, c]
      else if c = CHR 0x09 then [CHR 0x5C, CHR ''t'']
      else if c = LF then [CHR 0x5C, CHR ''n'']
      else if c = CR then [CHR 0x5C, CHR ''r'']
      else if py_isprintable c then [c]
      else [CHR 0x5C, CHR ''x'', hex_digit (py_ord c div 16), hex_digit (py_ord c mod 16)])"

definition py_repr :: "string \<Rightarrow> string" where
  "py_repr s =
     (let q = (if CHR 0x27 \<in> set s \<and> CHR 0x22 \<notin> set s then CHR 0x22 else CHR 0x27)
      in q # concat (map (repr_char q) s) @ [q])"

subsection \<open>Example and demo functions\<close>

type_synonym 'a pio = "world \<Rightarrow> ((error + 'a) \<times> world) option"


definition io_print :: "string \<Rightarrow> unit io" where
  "io_print s w = (Inr (), py_print s w)"

definition initial_lines :: "string list" where
  "initial_lines =
     [''Line 1: Header - pyref example file'' @ [LF],
      ''Line 2: This is the second line (we'll prepend numbers here later)'' @ [LF],
      ''Line 3: Menu item A - apples'' @ [LF],
      ''Line 4: Menu item B - bananas'' @ [LF],
      ''Line 5: Menu item C - cherries'' @ [LF]]"


partial_function (option) ask_yes_no_loop :: "bool pio" where
  [code]: "ask_yes_no_loop w =
     (case get_single_key w of
        (Inl e, w1) \<Rightarrow> Some (Inl e, w1)
      | (Inr (ch, code), w1) \<Rightarrow>
          (let w2 = py_write (ch @ [LF]) w1 in
           if py_lower ch = ''y'' then Some (Inr True, w2)
           else if py_lower ch = ''n'' then Some (Inr False, w2)
           else if code = 27 then Some (Inr False, w2)
           else ask_yes_no_loop (py_write ''Please press 'y' or 'n': '' w2)))"

definition ask_yes_no :: "string \<Rightarrow> bool pio" where
  "ask_yes_no question w = ask_yes_no_loop (py_write question w)"

text \<open>
  \<^verbatim>\<open>input(prompt)\<close>: the prompt is written, then the next line is returned; Ctrl-C at
  the prompt raises \<open>KeyboardInterrupt\<close>, the end of input raises \<open>EOFError\<close>.
\<close>

definition py_input :: "string \<Rightarrow> string io" where
  "py_input prompt w =
     (let w1 = py_write prompt w
      in case stdin_lines w1 of
           [] \<Rightarrow> (Inl EOFError, w1)
         | Line s # r \<Rightarrow> (Inr s, w1\<lparr>stdin_lines := r\<rparr>)
         | Interrupt # r \<Rightarrow> (Inl KeyboardInterrupt, w1\<lparr>stdin_lines := r\<rparr>))"


definition append_text_to_file :: "string \<Rightarrow> unit io" where
  "append_text_to_file txt =
     io_bind (append_to TMP_FILE (txt @ [LF]))
       (\<lambda>_. io_print (''Appended your text to '' @ path_str TMP_FILE))"

text \<open>
  The prompt loop of \<open>prepend_number_to_second_line\<close>: \<open>None\<close> when the loop returns
  from the function on a blank line, the number's text when it leaves by \<^verbatim>\<open>break\<close>.
\<close>

function prompt_for_number :: "world \<Rightarrow> (error + string option) \<times> world" where
  "prompt_for_number w =
     (case py_input ''Enter an integer to prepend to line 2 (blank to skip): '' w of
        (Inl e, w1) \<Rightarrow> (Inl e, w1)
      | (Inr s, w1) \<Rightarrow>
          (let num_str = py_strip s in
           if num_str = [] then (Inr None, py_print ''No number entered; skipping.'' w1)
           else (case py_int num_str of
                   Inr _ \<Rightarrow> (Inr (Some num_str), w1)
                 | Inl _ \<Rightarrow>
                     prompt_for_number
                       (py_print ''Please enter a valid integer (e.g. 5 or -2).'' w1))))"
  by pat_completeness auto
termination
proof (relation "measure (\<lambda>w. length (stdin_lines w))", goal_cases)
  case 1
  show ?case by simp
next
  case (2 w x s w1 num_str e)
  then show ?case
    by (auto simp: py_input_def py_write_def py_print_def Let_def
        split: list.splits line_in.splits)
qed

text \<open>\<^verbatim>\<open>while len(lines) < 2: lines.append("")\<close>.\<close>

function pad_to_two :: "string list \<Rightarrow> string list" where
  "pad_to_two ls = (if length ls < 2 then pad_to_two (ls @ [[]]) else ls)"
  by pat_completeness auto
termination
  by (relation "measure (\<lambda>ls. 2 - length ls)") auto

definition prepend_number_to_second_line :: "unit io" where
  "prepend_number_to_second_line w =
     (case prompt_for_number w of
        (Inl e, w1) \<Rightarrow> (Inl e, w1)
      | (Inr None, w1) \<Rightarrow> (Inr (), w1)
      | (Inr (Some num_str), w1) \<Rightarrow>
          (case read_text TMP_FILE w1 of
             (Inl e, w2) \<Rightarrow> (Inl e, w2)
           | (Inr txt, w2) \<Rightarrow>
               (let ls = pad_to_two (py_splitlines txt);
                    ls' = ls[1 := num_str @ '' '' @ ls ! 1]
                in io_bind (write_text TMP_FILE (py_join [LF] ls' @ [LF]))
                     (\<lambda>_. io_print (''Prepended number to the second line of ''
                                       @ path_str TMP_FILE @ ''.'')) w2)))"

text \<open>The menu: the non-blank lines of the file, of which at most nine are offered.\<close>

definition menu_lines :: "string \<Rightarrow> string list" where
  "menu_lines content = filter (\<lambda>ln. py_strip ln \<noteq> []) (py_splitlines content)"

definition print_menu :: "string list \<Rightarrow> nat \<Rightarrow> world \<Rightarrow> world" where
  "print_menu ls max_choices w =
     fold (\<lambda>i. py_print ('' '' @ py_str_nat (i + 1) @ '') '' @ ls ! i)) [0..<max_choices] w"

partial_function (option) menu_loop :: "string list \<Rightarrow> nat \<Rightarrow> string option pio" where
  [code]: "menu_loop ls max_choices w =
     (case get_single_key w of
        (Inl e, w1) \<Rightarrow> Some (Inl e, w1)
      | (Inr (ch, code), w1) \<Rightarrow>
          if code = 27 then Some (Inr None, py_print (LF # ''Menu cancelled.'') w1)
          else if py_isdigit ch then
            (case py_int ch of
               Inl e \<Rightarrow> Some (Inl e, w1)
             | Inr n \<Rightarrow>
                 if 1 \<le> n \<and> n \<le> int max_choices then
                   (let choice = ls ! nat (n - 1)
                    in Some (Inr (Some choice), py_print (LF # ''You selected: '' @ choice) w1))
                 else menu_loop ls max_choices
                        (py_write (LF # ''Press a valid number key or Esc: '') w1))
          else menu_loop ls max_choices
                 (py_write (LF # ''Press a valid number key or Esc: '') w1))"

definition menu_from_file :: "string option pio" where
  "menu_from_file w =
     (case read_text TMP_FILE w of
        (Inl e, w1) \<Rightarrow> Some (Inl e, w1)
      | (Inr content, w1) \<Rightarrow>
          (let ls = menu_lines content in
           if ls = [] then Some (Inr None, py_print ''No menu items found in the file.'' w1)
           else
             (let max_choices = min 9 (length ls);
                  w2 = py_print ''Menu (press the number key to choose; Esc to cancel):'' w1;
                  w3 = print_menu ls max_choices w2
              in menu_loop ls max_choices w3)))"


text \<open>
  \<^verbatim>\<open>subprocess.check_output\<close> raises \<^verbatim>\<open>CalledProcessError\<close> on a non-zero exit
  status, which \<open>capture_bash_output\<close> catches itself.
\<close>

definition capture_bash_output :: "string \<Rightarrow> world \<Rightarrow> string \<times> world" where
  "capture_bash_output cmd w =
     (case shell w cmd of
        (status, output) \<Rightarrow>
          if status = 0 then (output, py_print (''Captured output of command: '' @ py_repr cmd) w)
          else ([], py_print (''Command failed with exit '' @ py_str_nat status
                               @ ''. Output:'' @ [LF] @ output) w))"





definition add :: "int \<Rightarrow> int \<Rightarrow> int" where
  "add a b = a + b"





definition marker_file_demo :: "unit io" where
  "marker_file_demo w =
     (if path_exists MARKER_FILE w then
        (let w1 = py_print (''Marker file '' @ path_str MARKER_FILE @ '' exists. Taking branch A.'') w;
             (captured, w2) = capture_bash_output ''date'' w1
         in io_print (''Date output captured (example): '' @ py_strip captured) w2)
      else
        (let w1 = py_print (''Marker file '' @ path_str MARKER_FILE
                     @ '' does not exist. Creating it now and taking branch B.'') w
         in io_bind (write_text MARKER_FILE (''marker'' @ [LF]))
              (\<lambda>_. io_print (''Created marker file '' @ path_str MARKER_FILE)) w1))"



definition needs_end_marker :: "string list \<Rightarrow> bool" where
  "needs_end_marker ls = (length ls \<ge> 2 \<and> \<not> py_endswith (ls ! 1) '' -- END'')"

definition mark_second_line :: "string list \<Rightarrow> string list" where
  "mark_second_line ls =
     (if needs_end_marker ls then ls[1 := py_rstrip (ls ! 1) @ '' -- END''] else ls)"



subsection \<open>Main flow\<close>































subsection \<open>A concrete world\<close>

text \<open>
  A terminal in its usual line mode, nothing printed yet, shell commands that succeed
  silently; the keys, the lines and the two files are given.
\<close>

definition cooked :: termios where
  "cooked = \<lparr>echo = True, icanon = True, isig = True, opost = True, icrnl = True,
             other_attrs = 0\<rparr>"

definition quiet_shell :: "string \<Rightarrow> nat \<times> string" where
  "quiet_shell cmd = (0, [])"

definition fresh_world :: "string \<Rightarrow> line_in list \<Rightarrow> file_state \<Rightarrow> file_state \<Rightarrow> world" where
  "fresh_world ks ls tmp marker =
     \<lparr>term_mode = cooked, tty_log = [], stdin_keys = ks, stdin_lines = ls, stdout = [],
      tmp_file = tmp, marker_file = marker, shell = quiet_shell, has_requests = False,
      GLOBAL_VAR = ''I am global''\<rparr>"

subsection \<open>Vocabulary of the properties\<close>

text \<open>
  The keys that end \<open>ask_yes_no\<close>, the keys it answers with its guidance, and what it
  writes for a run of such keys: each key echoed with a newline, then the guidance.
\<close>

definition accepting :: "char \<Rightarrow> bool" where
  "accepting c = (c = CHR ''y'' \<or> c = CHR ''Y'' \<or> c = CHR ''n'' \<or> c = CHR ''N'' \<or> c = ESC)"

definition rejected :: "char \<Rightarrow> bool" where
  "rejected c = (\<not> accepting c \<and> c \<noteq> ETX)"

definition echo_and_reprompt :: "string \<Rightarrow> string" where
  "echo_and_reprompt pre = concat (map (\<lambda>c. [c, LF] @ ''Please press 'y' or 'n': '') pre)"

definition ask_outcome :: "world \<Rightarrow> (error + bool) \<times> world \<Rightarrow> bool" where
  "ask_outcome w rw =
    (\<exists>pre k rest. stdin_keys w = pre @ k # rest \<and> (\<forall>c\<in>set pre. rejected c) \<and>
      (if k = ETX then fst rw = Inl KeyboardInterrupt
       else accepting k \<and> fst rw = Inr (k = CHR ''y'' \<or> k = CHR ''Y'')))"

text \<open>The first line that \<open>marker_file_demo\<close> prints on each of its branches.\<close>

definition branch_A_notice :: string where
  "branch_A_notice = ''Marker file /tmp/pyref_marker exists. Taking branch A.'' @ [LF]"

definition branch_B_notice :: string where
  "branch_B_notice =
     ''Marker file /tmp/pyref_marker does not exist. Creating it now and taking branch B.'' @ [LF]"

text \<open>
  The key of the digit \<open>d\<close>; the keys that choose a menu item when \<open>max_choices\<close> items
  are offered; the keys the menu answers by asking again; and what the menu prints.
\<close>

definition digit_key :: "nat \<Rightarrow> char" where
  "digit_key d = char_of (48 + d)"

definition menu_choice :: "nat \<Rightarrow> char \<Rightarrow> bool" where
  "menu_choice max_choices c =
     (is_ascii_digit c \<and> 1 \<le> py_ord c - 48 \<and> py_ord c - 48 \<le> max_choices)"

definition menu_ignored :: "nat \<Rightarrow> char \<Rightarrow> bool" where
  "menu_ignored max_choices c =
     (c \<noteq> ETX \<and> c \<noteq> ESC \<and> \<not> menu_choice max_choices c \<and>
      (is_ascii_digit c \<or> \<not> py_isdigit_char c))"

definition menu_text :: "string list \<Rightarrow> string" where
  "menu_text ls =
     ''Menu (press the number key to choose; Esc to cancel):'' @ [LF]
     @ concat (map (\<lambda>i. '' '' @ py_str_nat (i + 1) @ '') '' @ ls ! i @ [LF])
                [0..<min 9 (length ls)])"

definition menu_reprompts :: "string \<Rightarrow> string" where
  "menu_reprompts pre = concat (map (\<lambda>c. LF # ''Press a valid number key or Esc: '') pre)"

definition menu_outcome :: "string list \<Rightarrow> nat \<Rightarrow> world \<Rightarrow> (error + string option) \<times> world \<Rightarrow> bool" where
  "menu_outcome ls max_choices w rw =
    (\<exists>pre k rest. stdin_keys w = pre @ k # rest \<and> (\<forall>c\<in>set pre. menu_ignored max_choices c) \<and>
      (if k = ETX then fst rw = Inl KeyboardInterrupt
       else if k = ESC then fst rw = Inr None
       else if menu_choice max_choices k then fst rw = Inr (Some (ls ! (py_ord k - 49)))
       else fst rw = Inl ValueError))"

text \<open>The lines of a file as the program gets them: \<^verbatim>\<open>read_text().splitlines()\<close>.\<close>

definition file_lines :: "string \<Rightarrow> string list" where
  "file_lines content = py_splitlines (universal_newlines content)"

section \<open>Properties\<close>

subsection \<open>Reading one key\<close>

lemma py_ord_eq_iff: "n < 256 \<Longrightarrow> py_ord c = n \<longleftrightarrow> c = char_of n"
  unfolding py_ord_def by (metis char_of_char of_char_of mod_less)

lemma get_single_key_eq:
  "get_single_key w =
     (case stdin_keys w of
        [] \<Rightarrow> Inr ([], 0)
      | c # cs \<Rightarrow> if py_ord c = 3 then Inl KeyboardInterrupt else Inr ([c], py_ord c),
      w\<lparr>stdin_keys := tl (stdin_keys w),
        tty_log := tty_log w @ [Tcgetattr, Setraw, Tcsetattr (term_mode w)]\<rparr>)"
  by (cases "stdin_keys w")
     (auto simp: get_single_key_def get_single_key_body_def tcgetattr_def tty_setraw_def
        tcsetattr_def stdin_read1_def try_finally_def io_return_def io_raise_def Let_def)

text \<open>
  C1. Whatever the key stream holds, after \<open>get_single_key\<close> the terminal mode is the
  one in effect before the call, whether the call returned a key, returned the empty
  read or raised \<open>KeyboardInterrupt\<close>; and the call made exactly the three termios
  calls: capture, switch to raw, restore the captured mode (so one restore per call).
\<close>

theorem get_single_key_restores_mode:
  "term_mode (snd (get_single_key w)) = term_mode w \<and>
   tty_log (snd (get_single_key w)) = tty_log w @ [Tcgetattr, Setraw, Tcsetattr (term_mode w)] \<and>
   length (filter (\<lambda>c. c \<noteq> Tcgetattr \<and> c \<noteq> Setraw)
      (drop (length (tty_log w)) (tty_log (snd (get_single_key w))))) = 1"
  by (simp add: get_single_key_eq)


subsection \<open>The yes/no question\<close>

lemma py_ord_inj: "py_ord c = py_ord d \<longleftrightarrow> c = d"
  by (simp add: py_ord_def)

lemma py_ord_lower_char:
  "py_ord (py_lower_char c) =
     (if (65 \<le> py_ord c \<and> py_ord c \<le> 90) \<or> (192 \<le> py_ord c \<and> py_ord c \<le> 222 \<and> py_ord c \<noteq> 215)
      then py_ord c + 32 else py_ord c)"
  by (auto simp: py_lower_char_def Let_def py_ord_def of_char_of)

lemma py_ord_keys:
  "py_ord (CHR ''y'') = 121" "py_ord (CHR ''Y'') = 89" "py_ord (CHR ''n'') = 110"
  "py_ord (CHR ''N'') = 78" "py_ord ESC = 27" "py_ord ETX = 3"
  by (simp_all add: py_ord_def)

lemma lower_y: "py_lower_char c = CHR ''y'' \<longleftrightarrow> c = CHR ''y'' \<or> c = CHR ''Y''"
  unfolding py_ord_inj [symmetric] py_ord_lower_char py_ord_keys by auto

lemma lower_n: "py_lower_char c = CHR ''n'' \<longleftrightarrow> c = CHR ''n'' \<or> c = CHR ''N''"
  unfolding py_ord_inj [symmetric] py_ord_lower_char py_ord_keys by auto

lemma py_ord_27: "py_ord c = 27 \<longleftrightarrow> c = ESC"
  by (simp add: py_ord_inj [symmetric] py_ord_keys)

lemma py_ord_3: "py_ord c = 3 \<longleftrightarrow> c = ETX"
  by (simp add: py_ord_inj [symmetric] py_ord_keys)

lemma ask_yes_no_loop_key:
  "stdin_keys w = c # cs \<Longrightarrow>
   ask_yes_no_loop w =
     (if c = ETX then Some (Inl KeyboardInterrupt, snd (get_single_key w))
      else if accepting c
        then Some (Inr (c = CHR ''y'' \<or> c = CHR ''Y''), py_write [c, LF] (snd (get_single_key w)))
      else ask_yes_no_loop
             (py_write ''Please press 'y' or 'n': '' (py_write [c, LF] (snd (get_single_key w)))))"
  by (subst ask_yes_no_loop.simps)
     (auto simp: get_single_key_eq py_lower_def lower_y lower_n py_ord_27 py_ord_3 accepting_def)

lemma ask_yes_no_loop_returns:
  "stdin_keys w = pre @ k # rest \<Longrightarrow> \<forall>c\<in>set pre. rejected c \<Longrightarrow> accepting k \<Longrightarrow>
   \<exists>w'. ask_yes_no_loop w = Some (Inr (k = CHR ''y'' \<or> k = CHR ''Y''), w') \<and>
        stdin_keys w' = rest \<and>
        stdout w' = stdout w @ echo_and_reprompt pre @ [k, LF]"
proof (induction pre arbitrary: w)
  case Nil
  then have "k \<noteq> ETX" by (auto simp: accepting_def)
  with Nil show ?case
    by (simp add: ask_yes_no_loop_key get_single_key_eq py_write_def echo_and_reprompt_def)
next
  case (Cons c pre)
  let ?w1 = "py_write ''Please press 'y' or 'n': '' (py_write [c, LF] (snd (get_single_key w)))"
  from Cons.prems have c: "c \<noteq> ETX" "\<not> accepting c" by (auto simp: rejected_def)
  from Cons.prems have step: "ask_yes_no_loop w = ask_yes_no_loop ?w1"
    using c by (simp add: ask_yes_no_loop_key)
  have keys: "stdin_keys ?w1 = pre @ k # rest"
    using Cons.prems by (simp add: get_single_key_eq py_write_def)
  from Cons.IH [OF keys] Cons.prems obtain w' where
    w': "ask_yes_no_loop ?w1 = Some (Inr (k = CHR ''y'' \<or> k = CHR ''Y''), w')"
      "stdin_keys w' = rest" "stdout w' = stdout ?w1 @ echo_and_reprompt pre @ [k, LF]"
    by auto
  show ?case
    using w' step by (simp add: get_single_key_eq py_write_def echo_and_reprompt_def)
qed

lemma ask_yes_no_loop_only_returns:
  assumes "ask_yes_no_loop w = Some rw"
  shows "ask_outcome w rw"
proof (rule ask_yes_no_loop.raw_induct [where P = ask_outcome, OF _ assms], goal_cases)
  case (1 loop w rw)
  show ?case
  proof (cases "stdin_keys w")
    case Nil
    with 1(2) have "loop (py_write ''Please press 'y' or 'n': '' (py_write [LF] (snd (get_single_key w)))) = Some rw"
      by (simp add: get_single_key_eq py_lower_def)
    from 1(1) [OF this] have False
      using Nil by (simp add: ask_outcome_def get_single_key_eq py_write_def)
    then show ?thesis ..
  next
    case (Cons c cs)
    show ?thesis
    proof (cases "c = ETX \<or> accepting c")
      case True
      with 1(2) Cons have "if c = ETX then fst rw = Inl KeyboardInterrupt
         else accepting c \<and> fst rw = Inr (c = CHR ''y'' \<or> c = CHR ''Y'')"
        by (auto simp: get_single_key_eq py_lower_def lower_y lower_n py_ord_27 py_ord_3
            accepting_def split: if_splits)
      with Cons have "stdin_keys w = [] @ c # cs \<and> (\<forall>c\<in>set []. rejected c) \<and>
        (if c = ETX then fst rw = Inl KeyboardInterrupt
         else accepting c \<and> fst rw = Inr (c = CHR ''y'' \<or> c = CHR ''Y''))"
        by simp
      then show ?thesis unfolding ask_outcome_def by blast
    next
      case False
      with 1(2) Cons have
        "loop (py_write ''Please press 'y' or 'n': '' (py_write [c, LF] (snd (get_single_key w)))) = Some rw"
        by (auto simp: get_single_key_eq py_lower_def lower_y lower_n py_ord_27 py_ord_3
            accepting_def split: if_splits)
      from 1(1) [OF this] obtain pre k rest where
        d: "cs = pre @ k # rest" "\<forall>c\<in>set pre. rejected c"
          "if k = ETX then fst rw = Inl KeyboardInterrupt
           else accepting k \<and> fst rw = Inr (k = CHR ''y'' \<or> k = CHR ''Y'')"
        using Cons by (auto simp: ask_outcome_def get_single_key_eq py_write_def)
      from d False Cons have "stdin_keys w = (c # pre) @ k # rest \<and> (\<forall>c\<in>set (c # pre). rejected c) \<and>
        (if k = ETX then fst rw = Inl KeyboardInterrupt
           else accepting k \<and> fst rw = Inr (k = CHR ''y'' \<or> k = CHR ''Y''))"
        by (simp add: rejected_def)
      then show ?thesis unfolding ask_outcome_def by blast
    qed
  qed
qed

lemma ask_yes_no_loop_never_returns:
  assumes "\<forall>c\<in>set (stdin_keys w). rejected c"
  shows "ask_yes_no_loop w = None"
proof (cases "ask_yes_no_loop w")
  case None
  then show ?thesis .
next
  case (Some rw)
  from ask_yes_no_loop_only_returns [OF Some] obtain pre k rest where
    "stdin_keys w = pre @ k # rest" "k = ETX \<or> accepting k"
    unfolding ask_outcome_def by (auto split: if_splits)
  with assms have False by (auto simp: rejected_def)
  then show ?thesis ..
qed

text \<open>
  C4. When the keys start with rejected keys followed by an accepting key \<open>k\<close>,
  \<open>ask_yes_no\<close> returns, with \<open>True\<close> exactly for y and Y (so \<open>False\<close> for n, N and
  Escape), having read up to \<open>k\<close> and written the question, each rejected key with a
  newline and the guidance, and \<open>k\<close> with a newline. Whenever it returns a value, the
  keys had that shape. On keys that are all rejected it never returns. (Ctrl-C is not a
  key the loop sees: \<open>get_single_key\<close> raises on it.)
\<close>

theorem ask_yes_no_first_accepting_key:
  "(stdin_keys w = pre @ k # rest \<and> (\<forall>c\<in>set pre. rejected c) \<and> accepting k \<longrightarrow>
      (\<exists>w'. ask_yes_no question w = Some (Inr (k = CHR ''y'' \<or> k = CHR ''Y''), w') \<and>
            stdin_keys w' = rest \<and>
            stdout w' = stdout w @ question @ echo_and_reprompt pre @ [k, LF])) \<and>
   (ask_yes_no question w = Some (Inr b, v) \<longrightarrow>
      (\<exists>pre k rest. stdin_keys w = pre @ k # rest \<and> (\<forall>c\<in>set pre. rejected c) \<and>
         accepting k \<and> b = (k = CHR ''y'' \<or> k = CHR ''Y''))) \<and>
   ((\<forall>c\<in>set (stdin_keys w). rejected c) \<longrightarrow> ask_yes_no question w = None)"
proof (intro conjI impI)
  assume a: "stdin_keys w = pre @ k # rest \<and> (\<forall>c\<in>set pre. rejected c) \<and> accepting k"
  then have "stdin_keys (py_write question w) = pre @ k # rest"
    by (simp add: py_write_def)
  from ask_yes_no_loop_returns [OF this] a
  show "\<exists>w'. ask_yes_no question w = Some (Inr (k = CHR ''y'' \<or> k = CHR ''Y''), w') \<and>
            stdin_keys w' = rest \<and>
            stdout w' = stdout w @ question @ echo_and_reprompt pre @ [k, LF]"
    by (simp add: ask_yes_no_def py_write_def)
next
  assume "ask_yes_no question w = Some (Inr b, v)"
  then have "ask_outcome (py_write question w) (Inr b, v)"
    unfolding ask_yes_no_def by (rule ask_yes_no_loop_only_returns)
  then show "\<exists>pre k rest. stdin_keys w = pre @ k # rest \<and> (\<forall>c\<in>set pre. rejected c) \<and>
         accepting k \<and> b = (k = CHR ''y'' \<or> k = CHR ''Y'')"
    unfolding ask_outcome_def by (auto simp: py_write_def split: if_splits)
next
  assume "\<forall>c\<in>set (stdin_keys w). rejected c"
  then show "ask_yes_no question w = None"
    unfolding ask_yes_no_def by (intro ask_yes_no_loop_never_returns) (simp add: py_write_def)
qed

theorem ask_yes_no_first_accepting_key_witness:
  "(\<exists>w'. ask_yes_no ''Go? '' (fresh_world ''xYz'' [] Missing Missing) = Some (Inr True, w') \<and>
         stdin_keys w' = ''z'' \<and>
         stdout w' = ''Go? x'' @ [LF] @ ''Please press 'y' or 'n': Y'' @ [LF]) \<and>
   ask_yes_no ''Go? '' (fresh_world ''xq'' [] Missing Missing) = None"
proof
  show "\<exists>w'. ask_yes_no ''Go? '' (fresh_world ''xYz'' [] Missing Missing) = Some (Inr True, w') \<and>
         stdin_keys w' = ''z'' \<and>
         stdout w' = ''Go? x'' @ [LF] @ ''Please press 'y' or 'n': Y'' @ [LF]"
    using ask_yes_no_first_accepting_key
      [of "fresh_world ''xYz'' [] Missing Missing" "''x''" "CHR ''Y''" "''z''" "''Go? ''"]
    by (simp add: fresh_world_def rejected_def accepting_def echo_and_reprompt_def)
  show "ask_yes_no ''Go? '' (fresh_world ''xq'' [] Missing Missing) = None"
    using ask_yes_no_first_accepting_key
      [of "fresh_world ''xq'' [] Missing Missing" "[]" "CHR ''Y''" "[]" "''Go? ''"]
    by (simp add: fresh_world_def rejected_def accepting_def)
qed

subsection \<open>The end marker and the marker file\<close>

lemma py_endswith_append: "py_endswith (s @ p) p"
  by (simp add: py_endswith_def)

text \<open>
  C10. Marking the second line is idempotent: on lines with a second line, doing it twice
  gives the same second line (indeed the same lines) as doing it once, and after it the
  second line ends with the marker, which is why the second pass changes nothing.
\<close>

theorem mark_second_line_idempotent:
  "2 \<le> length ls \<Longrightarrow>
   mark_second_line (mark_second_line ls) ! 1 = mark_second_line ls ! 1 \<and>
   mark_second_line (mark_second_line ls) = mark_second_line ls \<and>
   py_endswith (mark_second_line ls ! 1) '' -- END''"
  by (auto simp: mark_second_line_def needs_end_marker_def py_endswith_append)

theorem mark_second_line_idempotent_witness:
  "mark_second_line (mark_second_line [''a'', ''b  '', ''c'']) ! 1 = ''b -- END'' \<and>
   mark_second_line [''a'', ''b  '', ''c''] ! 1 = ''b -- END''"
  using mark_second_line_idempotent [of "[''a'', ''b  '', ''c'']"]
  by (simp add: mark_second_line_def needs_end_marker_def py_endswith_def py_rstrip_def
      py_isspace_def py_ord_def)

text \<open>
  C8. Without the marker file, \<open>marker_file_demo\<close> announces branch B, creates the
  marker and says so; run again from there it announces branch A and leaves the marker as
  it is. With the marker present it announces branch A and leaves the marker as it is.
\<close>

theorem marker_file_demo_branches:
  "(marker_file w = Missing \<longrightarrow>
      (\<exists>w1. marker_file_demo w = (Inr (), w1) \<and>
            marker_file w1 = File (''marker'' @ [LF]) \<and>
            stdout w1 = stdout w @ branch_B_notice
                          @ ''Created marker file /tmp/pyref_marker'' @ [LF] \<and>
            (\<exists>w2 rest. marker_file_demo w1 = (Inr (), w2) \<and>
                  marker_file w2 = marker_file w1 \<and>
                  stdout w2 = stdout w1 @ branch_A_notice @ rest))) \<and>
   (marker_file w \<noteq> Missing \<longrightarrow>
      (\<exists>w1 rest. marker_file_demo w = (Inr (), w1) \<and>
            marker_file w1 = marker_file w \<and>
            stdout w1 = stdout w @ branch_A_notice @ rest))"
  by (auto simp: marker_file_demo_def path_exists_def file_at_def set_file_def write_text_def
      io_bind_def io_print_def py_print_def py_write_def path_str_def capture_bash_output_def
      branch_A_notice_def branch_B_notice_def Let_def split: prod.splits)

theorem marker_file_demo_branches_witness:
  "(\<exists>w1 w2 rest.
     marker_file_demo (fresh_world [] [] Missing Missing) = (Inr (), w1) \<and>
     marker_file w1 = File (''marker'' @ [LF]) \<and>
     stdout w1 = branch_B_notice @ ''Created marker file /tmp/pyref_marker'' @ [LF] \<and>
     marker_file_demo w1 = (Inr (), w2) \<and> marker_file w2 = marker_file w1 \<and>
     stdout w2 = stdout w1 @ branch_A_notice @ rest) \<and>
   (\<exists>w1 rest.
     marker_file_demo (fresh_world [] [] Missing (File ''old'')) = (Inr (), w1) \<and>
     marker_file w1 = File ''old'' \<and> stdout w1 = branch_A_notice @ rest)"
proof
  show "\<exists>w1 w2 rest.
     marker_file_demo (fresh_world [] [] Missing Missing) = (Inr (), w1) \<and>
     marker_file w1 = File (''marker'' @ [LF]) \<and>
     stdout w1 = branch_B_notice @ ''Created marker file /tmp/pyref_marker'' @ [LF] \<and>
     marker_file_demo w1 = (Inr (), w2) \<and> marker_file w2 = marker_file w1 \<and>
     stdout w2 = stdout w1 @ branch_A_notice @ rest"
    using marker_file_demo_branches [of "fresh_world [] [] Missing Missing"]
    by (simp add: fresh_world_def)
  show "\<exists>w1 rest.
     marker_file_demo (fresh_world [] [] Missing (File ''old'')) = (Inr (), w1) \<and>
     marker_file w1 = File ''old'' \<and> stdout w1 = branch_A_notice @ rest"
    using marker_file_demo_branches [of "fresh_world [] [] Missing (File ''old'')"]
    by (simp add: fresh_world_def)
qed

subsection \<open>The menu\<close>

lemma py_ord_digit_key: "d \<le> 9 \<Longrightarrow> py_ord (digit_key d) = 48 + d"
  by (simp add: py_ord_def digit_key_def)

lemma py_int_digit_char:
  assumes "py_isdigit_char c"
  shows "py_int [c] = (if is_ascii_digit c then Inr (int (py_ord c - 48)) else Inl ValueError)"
proof -
  have ns: "\<not> py_isspace c"
    using assms by (auto simp: py_isdigit_char_def is_ascii_digit_def py_isspace_def Let_def)
  have "py_ord c \<noteq> py_ord (CHR ''-'')" "py_ord c \<noteq> py_ord (CHR ''+'')"
    "py_ord c \<noteq> py_ord (CHR ''_'')"
    using assms by (auto simp: py_isdigit_char_def is_ascii_digit_def py_ord_def)
  then have ne: "c \<noteq> CHR ''-''" "c \<noteq> CHR ''+''" "c \<noteq> CHR ''_''"
    by auto
  show ?thesis
    using ns ne
    by (simp add: py_int_def py_strip_def py_lstrip_def py_rstrip_def digits_value_def)
qed

lemma py_isdigit_single: "py_isdigit [c] = py_isdigit_char c"
  by (simp add: py_isdigit_def)

lemma menu_choice_index:
  "menu_choice mc c \<Longrightarrow> nat (int (py_ord c - 48) - 1) = py_ord c - 49"
  by (auto simp: menu_choice_def)

lemma menu_loop_key:
  "stdin_keys w = c # cs \<Longrightarrow>
   menu_loop ls mc w =
     (if c = ETX then Some (Inl KeyboardInterrupt, snd (get_single_key w))
      else if c = ESC
        then Some (Inr None, py_print (LF # ''Menu cancelled.'') (snd (get_single_key w)))
      else if menu_choice mc c
        then Some (Inr (Some (ls ! (py_ord c - 49))),
                   py_print (LF # ''You selected: '' @ ls ! (py_ord c - 49)) (snd (get_single_key w)))
      else if menu_ignored mc c
        then menu_loop ls mc
               (py_write (LF # ''Press a valid number key or Esc: '') (snd (get_single_key w)))
      else Some (Inl ValueError, snd (get_single_key w)))"
proof -
  assume k: "stdin_keys w = c # cs"
  consider (etx) "c = ETX" | (esc) "c \<noteq> ETX" "c = ESC"
    | (choice) "c \<noteq> ETX" "c \<noteq> ESC" "menu_choice mc c"
    | (ign) "c \<noteq> ETX" "c \<noteq> ESC" "\<not> menu_choice mc c" "menu_ignored mc c"
    | (bad) "c \<noteq> ETX" "c \<noteq> ESC" "\<not> menu_choice mc c" "\<not> menu_ignored mc c"
    by blast
  then show ?thesis
  proof cases
    case etx
    with k show ?thesis
      by (subst menu_loop.simps) (simp add: get_single_key_eq py_ord_def)
  next
    case esc
    with k show ?thesis
      by (subst menu_loop.simps) (simp add: get_single_key_eq py_ord_def)
  next
    case choice
    then have d: "py_isdigit_char c" "is_ascii_digit c"
      by (auto simp: menu_choice_def py_isdigit_char_def)
    have r: "Suc 0 \<le> py_ord c - 48" "py_ord c - 48 \<le> mc"
      using choice by (auto simp: menu_choice_def)
    from k choice show ?thesis
      by (subst menu_loop.simps)
         (simp add: get_single_key_eq py_ord_3 py_ord_27 py_isdigit_single d
            py_int_digit_char r menu_choice_index Let_def)
  next
    case ign
    show ?thesis
    proof (cases "py_isdigit_char c")
      case True
      with ign have d: "is_ascii_digit c" by (auto simp: menu_ignored_def)
      have r: "\<not> (Suc 0 \<le> py_ord c - 48 \<and> py_ord c - 48 \<le> mc)"
        using ign d by (auto simp: menu_choice_def)
      from k ign show ?thesis
        by (subst menu_loop.simps)
           (simp add: get_single_key_eq py_ord_3 py_ord_27 py_isdigit_single True d
              py_int_digit_char r)
    next
      case False
      from k ign show ?thesis
        by (subst menu_loop.simps)
           (simp add: get_single_key_eq py_ord_3 py_ord_27 py_isdigit_single False)
    qed
  next
    case bad
    then have d: "py_isdigit_char c" "\<not> is_ascii_digit c"
      by (auto simp: menu_ignored_def)
    from k bad show ?thesis
      by (subst menu_loop.simps)
         (simp add: get_single_key_eq py_ord_3 py_ord_27 py_isdigit_single d py_int_digit_char)
  qed
qed


lemma menu_loop_returns:
  "stdin_keys w = pre @ k # rest \<Longrightarrow> \<forall>c\<in>set pre. menu_ignored mc c \<Longrightarrow>
   k = ESC \<or> menu_choice mc k \<Longrightarrow>
   \<exists>w'. menu_loop ls mc w =
          Some (Inr (if k = ESC then None else Some (ls ! (py_ord k - 49))), w') \<and>
        stdin_keys w' = rest \<and>
        stdout w' = stdout w @ menu_reprompts pre
          @ LF # (if k = ESC then ''Menu cancelled.''
                  else ''You selected: '' @ ls ! (py_ord k - 49)) @ [LF]"
proof (induction pre arbitrary: w)
  case Nil
  then have "k \<noteq> ETX" by (auto simp: menu_choice_def is_ascii_digit_def py_ord_def)
  with Nil show ?case
    by (auto simp: menu_loop_key get_single_key_eq py_write_def py_print_def menu_reprompts_def)
next
  case (Cons c pre)
  let ?w1 = "py_write (LF # ''Press a valid number key or Esc: '') (snd (get_single_key w))"
  from Cons.prems have c: "menu_ignored mc c" by simp
  then have c': "c \<noteq> ETX" "c \<noteq> ESC" "\<not> menu_choice mc c"
    by (auto simp: menu_ignored_def)
  from Cons.prems have step: "menu_loop ls mc w = menu_loop ls mc ?w1"
    using c c' by (simp add: menu_loop_key)
  have keys: "stdin_keys ?w1 = pre @ k # rest"
    using Cons.prems by (simp add: get_single_key_eq py_write_def)
  from Cons.IH [OF keys] Cons.prems obtain w' where
    w': "menu_loop ls mc ?w1 =
           Some (Inr (if k = ESC then None else Some (ls ! (py_ord k - 49))), w')"
      "stdin_keys w' = rest"
      "stdout w' = stdout ?w1 @ menu_reprompts pre
          @ LF # (if k = ESC then ''Menu cancelled.''
                  else ''You selected: '' @ ls ! (py_ord k - 49)) @ [LF]"
    by auto
  show ?case
    using w' step by (simp add: get_single_key_eq py_write_def menu_reprompts_def)
qed

lemma menu_loop_eof:
  assumes "menu_loop ls mc w = Some rw"
  shows "stdin_keys w \<noteq> []"
proof (rule menu_loop.raw_induct [where P = "\<lambda>ls mc w rw. stdin_keys w \<noteq> []", OF _ assms],
    goal_cases)
  case (1 loop ls mc w rw)
  show ?case
  proof
    assume e: "stdin_keys w = []"
    with 1(2) have
      "loop ls mc (py_write (LF # ''Press a valid number key or Esc: '') (snd (get_single_key w)))
         = Some rw"
      by (simp add: get_single_key_eq py_isdigit_def)
    from 1(1) [OF this] show False
      using e by (simp add: get_single_key_eq py_write_def)
  qed
qed

lemma menu_loop_only_returns:
  "stdin_keys w = ks \<Longrightarrow> menu_loop ls mc w = Some rw \<Longrightarrow> menu_outcome ls mc w rw"
proof (induction ks arbitrary: w)
  case Nil
  with menu_loop_eof [OF Nil(2)] show ?case by simp
next
  case (Cons c cs)
  let ?w1 = "py_write (LF # ''Press a valid number key or Esc: '') (snd (get_single_key w))"
  show ?case
  proof (cases "menu_ignored mc c")
    case True
    then have c': "c \<noteq> ETX" "c \<noteq> ESC" "\<not> menu_choice mc c"
      by (auto simp: menu_ignored_def)
    have "menu_loop ls mc w = menu_loop ls mc ?w1"
      using Cons.prems(1) True c' by (simp add: menu_loop_key)
    with Cons.prems have r: "menu_loop ls mc ?w1 = Some rw" by simp
    have keys: "stdin_keys ?w1 = cs"
      using Cons.prems(1) by (simp add: get_single_key_eq py_write_def)
    from Cons.IH [OF keys r] obtain pre k rest where
      d: "cs = pre @ k # rest" "\<forall>c\<in>set pre. menu_ignored mc c"
        "if k = ETX then fst rw = Inl KeyboardInterrupt
         else if k = ESC then fst rw = Inr None
         else if menu_choice mc k then fst rw = Inr (Some (ls ! (py_ord k - 49)))
         else fst rw = Inl ValueError"
      unfolding menu_outcome_def keys by blast
    from d True Cons.prems(1) have
      "stdin_keys w = (c # pre) @ k # rest \<and> (\<forall>c\<in>set (c # pre). menu_ignored mc c) \<and>
       (if k = ETX then fst rw = Inl KeyboardInterrupt
         else if k = ESC then fst rw = Inr None
         else if menu_choice mc k then fst rw = Inr (Some (ls ! (py_ord k - 49)))
         else fst rw = Inl ValueError)"
      by simp
    then show ?thesis unfolding menu_outcome_def by blast
  next
    case False
    from menu_loop_key [OF Cons.prems(1), of ls mc] Cons.prems(2) False have
      "if c = ETX then fst rw = Inl KeyboardInterrupt
       else if c = ESC then fst rw = Inr None
       else if menu_choice mc c then fst rw = Inr (Some (ls ! (py_ord c - 49)))
       else fst rw = Inl ValueError"
      by (auto split: if_splits)
    with Cons.prems(1) have
      "stdin_keys w = [] @ c # cs \<and> (\<forall>c\<in>set []. menu_ignored mc c) \<and>
       (if c = ETX then fst rw = Inl KeyboardInterrupt
         else if c = ESC then fst rw = Inr None
         else if menu_choice mc c then fst rw = Inr (Some (ls ! (py_ord c - 49)))
         else fst rw = Inl ValueError)"
      by simp
    then show ?thesis unfolding menu_outcome_def by blast
  qed
qed

lemma menu_loop_never_returns:
  "stdin_keys w = ks \<Longrightarrow> \<forall>c\<in>set ks. menu_ignored mc c \<Longrightarrow> menu_loop ls mc w = None"
proof (induction ks arbitrary: w)
  case Nil
  show ?case
  proof (cases "menu_loop ls mc w")
    case (Some a)
    from menu_loop_eof [OF this] Nil show ?thesis by simp
  qed simp
next
  case (Cons c cs)
  let ?w1 = "py_write (LF # ''Press a valid number key or Esc: '') (snd (get_single_key w))"
  from Cons.prems have ig: "menu_ignored mc c" by simp
  then have c': "c \<noteq> ETX" "c \<noteq> ESC" "\<not> menu_choice mc c"
    by (auto simp: menu_ignored_def)
  have step: "menu_loop ls mc w = menu_loop ls mc ?w1"
    using Cons.prems(1) ig c' by (simp add: menu_loop_key)
  have keys: "stdin_keys ?w1 = cs"
    using Cons.prems(1) by (simp add: get_single_key_eq py_write_def)
  from Cons.prems have "\<forall>c\<in>set cs. menu_ignored mc c" by simp
  from Cons.IH [OF keys this] step show ?case by simp
qed


lemma fold_py_print:
  "fold (\<lambda>i. py_print (f i)) xs w = py_write (concat (map (\<lambda>i. f i @ [LF]) xs)) w"
  by (induction xs arbitrary: w) (simp_all add: py_print_def py_write_def)

lemma menu_from_file_eq:
  assumes "tmp_file w = File content" and "ls = menu_lines (universal_newlines content)"
    and "ls \<noteq> []"
  shows "menu_from_file w = menu_loop ls (min 9 (length ls)) (py_write (menu_text ls) w)"
  using assms
  by (simp add: menu_from_file_def read_text_def file_at_def Let_def print_menu_def
      fold_py_print menu_text_def py_print_def py_write_def)

lemma digit_key_facts:
  assumes "d \<le> 9"
  shows "is_ascii_digit (digit_key d)" "digit_key d \<noteq> ETX" "digit_key d \<noteq> ESC"
    "menu_choice mc (digit_key d) \<longleftrightarrow> 1 \<le> d \<and> d \<le> mc"
    "py_ord (digit_key d) - 49 = d - 1"
  using assms py_ord_digit_key [OF assms]
  by (auto simp: is_ascii_digit_def menu_choice_def py_ord_inj [symmetric] py_ord_keys)

text \<open>
  C5. Let the file hold the non-blank lines \<open>ls\<close>, at least one. After keys that the menu
  ignores, the digit key \<open>d\<close> with \<open>1 \<le> d \<le> min 9 (length ls)\<close> makes \<open>menu_from_file\<close>
  return the item of index \<open>d - 1\<close>, and Escape makes it return no selection; the menu
  printed lists the first \<open>min 9 (length ls)\<close> items. A digit out of that range is one of
  the ignored keys: the loop asks again and reads on, and on ignored keys alone the call
  never returns. Whatever is selected is among the first nine items.
\<close>

theorem menu_from_file_selection:
  assumes "tmp_file w = File content" and "ls = menu_lines (universal_newlines content)"
    and "ls \<noteq> []"
  shows
   "(stdin_keys w = pre @ digit_key d # rest \<and>
       (\<forall>c\<in>set pre. menu_ignored (min 9 (length ls)) c) \<and> 1 \<le> d \<and> d \<le> min 9 (length ls) \<longrightarrow>
       (\<exists>w'. menu_from_file w = Some (Inr (Some (ls ! (d - 1))), w') \<and> stdin_keys w' = rest \<and>
             stdout w' = stdout w @ menu_text ls @ menu_reprompts pre
                           @ LF # ''You selected: '' @ ls ! (d - 1) @ [LF])) \<and>
    (stdin_keys w = pre @ ESC # rest \<and> (\<forall>c\<in>set pre. menu_ignored (min 9 (length ls)) c) \<longrightarrow>
       (\<exists>w'. menu_from_file w = Some (Inr None, w') \<and> stdin_keys w' = rest \<and>
             stdout w' = stdout w @ menu_text ls @ menu_reprompts pre
                           @ LF # ''Menu cancelled.'' @ [LF])) \<and>
    (d \<le> 9 \<and> (d = 0 \<or> min 9 (length ls) < d) \<longrightarrow>
       menu_ignored (min 9 (length ls)) (digit_key d)) \<and>
    ((\<forall>c\<in>set (stdin_keys w). menu_ignored (min 9 (length ls)) c) \<longrightarrow>
       menu_from_file w = None) \<and>
    (menu_from_file w = Some (Inr (Some choice), v) \<longrightarrow> choice \<in> set (take 9 ls))"
proof (intro conjI impI)
  let ?mc = "min 9 (length ls)"
  let ?w0 = "py_write (menu_text ls) w"
  note eq = menu_from_file_eq [OF assms]
  have keys0: "stdin_keys ?w0 = stdin_keys w" and out0: "stdout ?w0 = stdout w @ menu_text ls"
    by (simp_all add: py_write_def)
  {
    assume a: "stdin_keys w = pre @ digit_key d # rest \<and>
       (\<forall>c\<in>set pre. menu_ignored ?mc c) \<and> 1 \<le> d \<and> d \<le> ?mc"
    then have d9: "d \<le> 9" by simp
    from a have k: "stdin_keys ?w0 = pre @ digit_key d # rest" by (simp add: keys0)
    have ch: "digit_key d = ESC \<or> menu_choice ?mc (digit_key d)"
      using a digit_key_facts(4) [OF d9, of ?mc] by simp
    from menu_loop_returns [OF k _ ch, of ls] a
    show "\<exists>w'. menu_from_file w = Some (Inr (Some (ls ! (d - 1))), w') \<and> stdin_keys w' = rest \<and>
             stdout w' = stdout w @ menu_text ls @ menu_reprompts pre
                           @ LF # ''You selected: '' @ ls ! (d - 1) @ [LF]"
      by (simp add: eq out0 digit_key_facts [OF d9])
  }
  {
    assume a: "stdin_keys w = pre @ ESC # rest \<and> (\<forall>c\<in>set pre. menu_ignored ?mc c)"
    then have k: "stdin_keys ?w0 = pre @ ESC # rest" by (simp add: keys0)
    from menu_loop_returns [OF k, of ?mc ls] a
    show "\<exists>w'. menu_from_file w = Some (Inr None, w') \<and> stdin_keys w' = rest \<and>
             stdout w' = stdout w @ menu_text ls @ menu_reprompts pre
                           @ LF # ''Menu cancelled.'' @ [LF]"
      by (simp add: eq out0)
  }
  {
    assume a: "d \<le> 9 \<and> (d = 0 \<or> ?mc < d)"
    then have d9: "d \<le> 9" by simp
    from a show "menu_ignored ?mc (digit_key d)"
      unfolding menu_ignored_def
      using digit_key_facts(1-3) [OF d9] digit_key_facts(4) [OF d9, of ?mc] by auto
  }
  {
    assume "\<forall>c\<in>set (stdin_keys w). menu_ignored ?mc c"
    then show "menu_from_file w = None"
      unfolding eq by (intro menu_loop_never_returns [OF keys0])
  }
  {
    assume "menu_from_file w = Some (Inr (Some choice), v)"
    then have "menu_outcome ls ?mc ?w0 (Inr (Some choice), v)"
      unfolding eq by (rule menu_loop_only_returns [OF refl])
    then obtain k where "menu_choice ?mc k" "choice = ls ! (py_ord k - 49)"
      unfolding menu_outcome_def by (auto split: if_splits)
    then have "py_ord k - 49 < length (take 9 ls)" "choice = take 9 ls ! (py_ord k - 49)"
      by (auto simp: menu_choice_def)
    then show "choice \<in> set (take 9 ls)"
      by (metis nth_mem)
  }
qed


lemma initial_menu_lines:
  "[''Line 1: Header - pyref example file'',
    ''Line 2: This is the second line (we'll prepend numbers here later)'',
    ''Line 3: Menu item A - apples'',
    ''Line 4: Menu item B - bananas'',
    ''Line 5: Menu item C - cherries'']
   = menu_lines (universal_newlines (concat initial_lines))"
  by code_simp

lemma digit_key_3_9: "digit_key 3 = CHR ''3''" "digit_key 9 = CHR ''9''"
  by code_simp+

theorem menu_from_file_selection_witness:
  "(\<exists>w'. menu_from_file (fresh_world ''93'' [] (File (concat initial_lines)) Missing)
            = Some (Inr (Some ''Line 3: Menu item A - apples''), w') \<and> stdin_keys w' = []) \<and>
   (\<exists>w'. menu_from_file (fresh_world [ESC] [] (File (concat initial_lines)) Missing)
            = Some (Inr None, w')) \<and>
   menu_from_file (fresh_world ''9'' [] (File (concat initial_lines)) Missing) = None"
proof (intro conjI)
  let ?ls = "[''Line 1: Header - pyref example file'',
    ''Line 2: This is the second line (we'll prepend numbers here later)'',
    ''Line 3: Menu item A - apples'',
    ''Line 4: Menu item B - bananas'',
    ''Line 5: Menu item C - cherries'']"
  have ig: "menu_ignored (min 9 (length ?ls)) (CHR ''9'')"
    by (simp add: menu_ignored_def menu_choice_def is_ascii_digit_def py_ord_def)
  have tmp: "tmp_file (fresh_world ks [] (File (concat initial_lines)) Missing)
               = File (concat initial_lines)" for ks
    by (simp add: fresh_world_def)
  have ne: "?ls \<noteq> []" by simp
  have h1: "stdin_keys (fresh_world ''93'' [] (File (concat initial_lines)) Missing)
              = ''9'' @ digit_key 3 # [] \<and>
            (\<forall>c\<in>set ''9''. menu_ignored (min 9 (length ?ls)) c) \<and>
            1 \<le> (3::nat) \<and> 3 \<le> min 9 (length ?ls)"
    using ig by (simp add: fresh_world_def digit_key_3_9)
  from menu_from_file_selection [OF tmp initial_menu_lines ne, THEN conjunct1, THEN mp, OF h1]
  show "\<exists>w'. menu_from_file (fresh_world ''93'' [] (File (concat initial_lines)) Missing)
            = Some (Inr (Some ''Line 3: Menu item A - apples''), w') \<and> stdin_keys w' = []"
    by auto
  have h2: "stdin_keys (fresh_world [ESC] [] (File (concat initial_lines)) Missing)
              = [] @ ESC # [] \<and> (\<forall>c\<in>set []. menu_ignored (min 9 (length ?ls)) c)"
    by (simp add: fresh_world_def)
  from menu_from_file_selection [OF tmp initial_menu_lines ne, THEN conjunct2, THEN conjunct1,
      THEN mp, OF h2]
  show "\<exists>w'. menu_from_file (fresh_world [ESC] [] (File (concat initial_lines)) Missing)
            = Some (Inr None, w')"
    by auto
  have h3: "\<forall>c\<in>set (stdin_keys (fresh_world ''9'' [] (File (concat initial_lines)) Missing)).
              menu_ignored (min 9 (length ?ls)) c"
    using ig by (simp add: fresh_world_def)
  from menu_from_file_selection [OF tmp initial_menu_lines ne, THEN conjunct2, THEN conjunct2,
      THEN conjunct2, THEN conjunct1, THEN mp, OF h3]
  show "menu_from_file (fresh_world ''9'' [] (File (concat initial_lines)) Missing) = None" .
qed

subsection \<open>Lines of a file\<close>

lemma is_linebreak_simps [simp]: "is_linebreak LF" "is_linebreak CR"
  by (simp_all add: is_linebreak_def py_ord_def)

lemma py_splitlines_break:
  "is_linebreak c \<Longrightarrow>
   py_splitlines (c # cs) =
     [] # py_splitlines (if c = CR \<and> cs \<noteq> [] \<and> hd cs = LF then tl cs else cs)"
  by (cases cs) simp_all

lemma py_splitlines_nobreak:
  "\<not> is_linebreak c \<Longrightarrow>
   py_splitlines (c # cs) =
     (case py_splitlines cs of [] \<Rightarrow> [[c]] | l # ls \<Rightarrow> (c # l) # ls)"
  by simp

declare py_splitlines.simps(2) [simp del]

lemma py_splitlines_Nil_iff: "py_splitlines s = [] \<longleftrightarrow> s = []"
proof (cases s)
  case Nil
  then show ?thesis by simp
next
  case (Cons c cs)
  then show ?thesis
    by (cases "is_linebreak c")
       (simp_all add: py_splitlines_break py_splitlines_nobreak split: list.splits)
qed

lemma py_splitlines_no_break:
  "l \<in> set (py_splitlines s) \<Longrightarrow> c \<in> set l \<Longrightarrow> \<not> is_linebreak c"
proof (induction s arbitrary: l rule: length_induct)
  case (1 s)
  show ?case
  proof (cases s)
    case Nil
    with 1(2) show ?thesis by simp
  next
    case (Cons d ds)
    show ?thesis
    proof (cases "is_linebreak d")
      case True
      let ?r = "if d = CR \<and> ds \<noteq> [] \<and> hd ds = LF then tl ds else ds"
      have len: "length ?r < length s" using Cons by (cases ds) auto
      from 1(2) Cons True have "l = [] \<or> l \<in> set (py_splitlines ?r)"
        by (simp add: py_splitlines_break)
      with 1(1) len 1(3) show ?thesis by auto
    next
      case False
      have len: "length ds < length s" using Cons by simp
      show ?thesis
      proof (cases "py_splitlines ds")
        case Nil
        with 1(2,3) Cons False show ?thesis by (simp add: py_splitlines_nobreak)
      next
        case (Cons m ms)
        with 1(2) \<open>s = d # ds\<close> False have "l = d # m \<or> l \<in> set ms"
          by (simp add: py_splitlines_nobreak)
        then show ?thesis
        proof
          assume "l = d # m"
          with 1(3) have "c = d \<or> c \<in> set m" by simp
          moreover have "m \<in> set (py_splitlines ds)" using Cons by simp
          ultimately show ?thesis using False 1(1) len by blast
        next
          assume "l \<in> set ms"
          then have "l \<in> set (py_splitlines ds)" using Cons by simp
          with 1(1) len 1(3) show ?thesis by blast
        qed
      qed
    qed
  qed
qed

lemma py_splitlines_line:
  "\<forall>c\<in>set t. \<not> is_linebreak c \<Longrightarrow> py_splitlines (t @ LF # s) = t # py_splitlines s"
proof (induction t)
  case Nil
  show ?case by (simp add: py_splitlines_break)
next
  case (Cons c t)
  then show ?case by (simp add: py_splitlines_nobreak)
qed

lemma py_splitlines_after_break:
  "a \<noteq> [] \<Longrightarrow> is_linebreak (last a) \<Longrightarrow> last a \<noteq> CR \<Longrightarrow>
   py_splitlines (a @ b) = py_splitlines a @ py_splitlines b"
proof (induction a rule: length_induct)
  case (1 a)
  from 1(2) obtain c cs where a: "a = c # cs" by (cases a) auto
  show ?case
  proof (cases "cs = []")
    case True
    with a 1(3,4) show ?thesis by (simp add: py_splitlines_break)
  next
    case False
    then have l: "last cs = last a" using a by simp
    show ?thesis
    proof (cases "is_linebreak c")
      case nb: False
      have "py_splitlines (cs @ b) = py_splitlines cs @ py_splitlines b"
        using 1(1) a False l 1(3,4) by simp
      moreover have "py_splitlines cs \<noteq> []" using False by (simp add: py_splitlines_Nil_iff)
      ultimately show ?thesis
        using a nb by (cases "py_splitlines cs") (simp_all add: py_splitlines_nobreak)
    next
      case True
      let ?r = "if c = CR \<and> hd cs = LF then tl cs else cs"
      show ?thesis
      proof (cases "?r = []")
        case e: True
        then have "c = CR" "cs = [LF]" using False by (auto split: if_splits) (cases cs, auto)+
        with a show ?thesis by (simp add: py_splitlines_break)
      next
        case ne: False
        have lr: "last ?r = last a" "length ?r < length a"
          using a False ne l by (cases cs; auto split: if_splits)+
        have "py_splitlines (?r @ b) = py_splitlines ?r @ py_splitlines b"
          using 1(1) lr ne 1(3,4) by simp
        moreover have "(if c = CR \<and> cs @ b \<noteq> [] \<and> hd (cs @ b) = LF then tl (cs @ b) else cs @ b)
             = ?r @ b"
          using False by (cases cs) auto
        ultimately show ?thesis
          using a True False by (simp add: py_splitlines_break)
      qed
    qed
  qed
qed

lemma universal_newlines_no_CR: "CR \<notin> set (universal_newlines s)"
  by (induction s rule: universal_newlines.induct) auto

lemma universal_newlines_id: "CR \<notin> set s \<Longrightarrow> universal_newlines s = s"
  by (induction s rule: universal_newlines.induct) auto

lemma universal_newlines_append:
  "b \<noteq> [] \<Longrightarrow> hd b \<noteq> LF \<Longrightarrow>
   universal_newlines (a @ b) = universal_newlines a @ universal_newlines b"
proof (induction a rule: universal_newlines.induct)
  case 1
  then show ?case by simp
next
  case (2 c)
  then show ?case by (cases b) auto
next
  case (3 c d cs)
  then show ?case by (cases "cs @ b") auto
qed

lemma universal_newlines_last_break:
  "s \<noteq> [] \<Longrightarrow> is_linebreak (last s) \<Longrightarrow>
   universal_newlines s \<noteq> [] \<and> is_linebreak (last (universal_newlines s))"
  by (induction s rule: universal_newlines.induct) (auto split: if_splits)

lemma file_lines_append_line:
  assumes "content \<noteq> []" "is_linebreak (last content)" "\<forall>c\<in>set txt. \<not> is_linebreak c"
    "txt \<noteq> []"
  shows "file_lines (content @ txt @ [LF]) = file_lines content @ [txt]"
proof -
  have "hd (txt @ [LF]) \<noteq> LF" using assms(3,4) by (cases "txt") auto
  then have "universal_newlines (content @ txt @ [LF])
      = universal_newlines content @ universal_newlines (txt @ [LF])"
    by (intro universal_newlines_append) simp_all
  moreover have "CR \<notin> set (txt @ [LF])" using assms(3) by auto
  then have "universal_newlines (txt @ [LF]) = txt @ [LF]" by (rule universal_newlines_id)
  moreover have "last (universal_newlines content) \<noteq> CR"
    using universal_newlines_no_CR [of content] universal_newlines_last_break [OF assms(1) assms(2)]
    by (metis last_in_set)
  ultimately show ?thesis
    using universal_newlines_last_break [OF assms(1) assms(2)] py_splitlines_line [OF assms(3), of "[]"]
    by (simp add: file_lines_def py_splitlines_after_break)
qed

subsection \<open>Prepending and appending\<close>

lemma py_join_lines_split:
  "ls \<noteq> [] \<Longrightarrow> \<forall>l\<in>set ls. \<forall>c\<in>set l. \<not> is_linebreak c \<Longrightarrow>
   py_splitlines (py_join [LF] ls @ [LF]) = ls"
proof (induction ls)
  case Nil
  then show ?case by simp
next
  case (Cons x xs)
  show ?case
  proof (cases xs)
    case Nil
    with Cons.prems show ?thesis using py_splitlines_line [of x "[]"] by simp
  next
    case (Cons y ys)
    with Cons.IH Cons.prems show ?thesis
      using py_splitlines_line [of x "py_join [LF] (y # ys) @ [LF]"] by simp
  qed
qed

lemma py_join_no_CR:
  "\<forall>l\<in>set ls. \<forall>c\<in>set l. \<not> is_linebreak c \<Longrightarrow> CR \<notin> set (py_join [LF] ls)"
proof (induction ls)
  case Nil
  then show ?case by simp
next
  case (Cons x xs)
  then show ?case by (cases xs) auto
qed

lemma file_lines_written:
  assumes "ls \<noteq> []" "\<forall>l\<in>set ls. \<forall>c\<in>set l. \<not> is_linebreak c"
  shows "file_lines (py_join [LF] ls @ [LF]) = ls"
proof -
  have "CR \<notin> set (py_join [LF] ls @ [LF])" using py_join_no_CR [OF assms(2)] by simp
  then show ?thesis
    by (simp add: file_lines_def universal_newlines_id py_join_lines_split [OF assms])
qed

lemma file_lines_no_break:
  "l \<in> set (file_lines content) \<Longrightarrow> c \<in> set l \<Longrightarrow> \<not> is_linebreak c"
  unfolding file_lines_def by (rule py_splitlines_no_break)

lemma pad_to_two_cases:
  "2 \<le> length ls \<Longrightarrow> pad_to_two ls = ls"
  "pad_to_two [l] = [l, []]"
  "pad_to_two [] = [[], []]"
  by simp_all

lemma seven: "py_strip ''7'' = ''7''" "py_int ''7'' = Inr 7"
  by code_simp+

lemma prompt_for_number_7:
  "stdin_lines w = Line ''7'' # rest \<Longrightarrow>
   prompt_for_number w =
     (Inr (Some ''7''),
      w\<lparr>stdout := stdout w @ ''Enter an integer to prepend to line 2 (blank to skip): '',
        stdin_lines := rest\<rparr>)"
  by (subst prompt_for_number.simps) (simp add: py_input_def py_write_def seven Let_def)

lemma prepend_7:
  assumes "tmp_file w = File content" "stdin_lines w = Line ''7'' # rest"
    and "ls = pad_to_two (file_lines content)"
  shows "\<exists>w'. prepend_number_to_second_line w = (Inr (), w') \<and>
           tmp_file w' = File (py_join [LF] (ls[1 := ''7 '' @ ls ! 1]) @ [LF])"
  using assms
  by (simp add: prepend_number_to_second_line_def prompt_for_number_7 read_text_def file_at_def
      set_file_def write_text_def io_bind_def io_print_def py_print_def py_write_def
      file_lines_def Let_def del: pad_to_two.simps prompt_for_number.simps)

lemma no_break_7: "\<forall>c\<in>set ''7 ''. \<not> is_linebreak c"
  by (simp add: is_linebreak_def py_ord_def)

text \<open>
  C7. With the integer 7 entered: when the file has a second line reading \<open>abc\<close>, the
  second line afterwards reads \<open>7 abc\<close> and the other lines are as before; when the file
  has one line only, a blank second line is added and the number put in front of it, so
  the file then has that line and the line \<open>7 \<close>.
\<close>

theorem prepend_number_to_second_line_7:
  assumes "tmp_file w = File content" and "stdin_lines w = Line ''7'' # rest"
  shows
   "(2 \<le> length (file_lines content) \<and> file_lines content ! 1 = ''abc'' \<longrightarrow>
       (\<exists>w' content'. prepend_number_to_second_line w = (Inr (), w') \<and>
          tmp_file w' = File content' \<and> file_lines content' ! 1 = ''7 abc'' \<and>
          file_lines content' = (file_lines content)[1 := ''7 abc''])) \<and>
    (length (file_lines content) = 1 \<longrightarrow>
       (\<exists>w' content'. prepend_number_to_second_line w = (Inr (), w') \<and>
          tmp_file w' = File content' \<and>
          file_lines content' = [file_lines content ! 0, ''7 '']))"
proof (intro conjI impI)
  assume a: "2 \<le> length (file_lines content) \<and> file_lines content ! 1 = ''abc''"
  let ?ls = "file_lines content"
  let ?ls' = "?ls[1 := ''7 abc'']"
  have pad: "?ls = pad_to_two ?ls" using a by (simp add: pad_to_two_cases del: pad_to_two.simps)
  from prepend_7 [OF assms pad] a obtain w' where
    w': "prepend_number_to_second_line w = (Inr (), w')"
      "tmp_file w' = File (py_join [LF] ?ls' @ [LF])"
    by auto
  have "''abc'' \<in> set ?ls" using a by (metis nth_mem Suc_1 Suc_le_lessD One_nat_def)
  then have abc: "\<forall>c\<in>set ''7 abc''. \<not> is_linebreak c"
    using file_lines_no_break [of "''abc''" content] no_break_7 by auto
  have nb: "\<forall>l\<in>set ?ls'. \<forall>c\<in>set l. \<not> is_linebreak c"
  proof
    fix l assume "l \<in> set ?ls'"
    then have "l = ''7 abc'' \<or> l \<in> set ?ls" using set_update_subset_insert by fastforce
    then show "\<forall>c\<in>set l. \<not> is_linebreak c"
      using abc file_lines_no_break by blast
  qed
  have ne: "?ls' \<noteq> []" using a by auto
  have "file_lines (py_join [LF] ?ls' @ [LF]) = ?ls'" by (rule file_lines_written [OF ne nb])
  moreover have "?ls' ! 1 = ''7 abc''" using a by simp
  ultimately show "\<exists>w' content'. prepend_number_to_second_line w = (Inr (), w') \<and>
          tmp_file w' = File content' \<and> file_lines content' ! 1 = ''7 abc'' \<and>
          file_lines content' = (file_lines content)[1 := ''7 abc'']"
    using w' by auto
next
  assume a: "length (file_lines content) = 1"
  then obtain l where l: "file_lines content = [l]" by (cases "file_lines content") auto
  have pad: "[l, []] = pad_to_two (file_lines content)"
    unfolding l by (simp add: pad_to_two_cases del: pad_to_two.simps)
  from prepend_7 [OF assms pad] obtain w' where
    w': "prepend_number_to_second_line w = (Inr (), w')"
      "tmp_file w' = File (py_join [LF] [l, ''7 ''] @ [LF])"
    by auto
  have nb: "\<forall>m\<in>set [l, ''7 '']. \<forall>c\<in>set m. \<not> is_linebreak c"
    using file_lines_no_break [of l content] no_break_7 l by auto
  have "file_lines (py_join [LF] [l, ''7 ''] @ [LF]) = [l, ''7 '']"
    by (rule file_lines_written [OF _ nb]) simp
  then show "\<exists>w' content'. prepend_number_to_second_line w = (Inr (), w') \<and>
          tmp_file w' = File content' \<and>
          file_lines content' = [file_lines content ! 0, ''7 '']"
    using w' l by auto
qed

theorem prepend_number_to_second_line_7_witness:
  "(\<exists>w' content'.
      prepend_number_to_second_line
        (fresh_world [] [Line ''7''] (File (''x'' @ [LF] @ ''abc'' @ [LF])) Missing) = (Inr (), w') \<and>
      tmp_file w' = File content' \<and> file_lines content' ! 1 = ''7 abc'') \<and>
   (\<exists>w' content'.
      prepend_number_to_second_line
        (fresh_world [] [Line ''7''] (File (''only'' @ [LF])) Missing) = (Inr (), w') \<and>
      tmp_file w' = File content' \<and> file_lines content' = [''only'', ''7 ''])"
proof
  have l: "file_lines (''x'' @ [LF] @ ''abc'' @ [LF]) = [''x'', ''abc'']" by code_simp
  have h: "2 \<le> length (file_lines (''x'' @ [LF] @ ''abc'' @ [LF])) \<and>
           file_lines (''x'' @ [LF] @ ''abc'' @ [LF]) ! 1 = ''abc''"
    unfolding l by simp
  have t: "tmp_file (fresh_world [] [Line ''7''] (File c) Missing) = File c"
    "stdin_lines (fresh_world [] [Line ''7''] (File c) Missing) = Line ''7'' # []" for c
    by (simp_all add: fresh_world_def)
  from prepend_number_to_second_line_7 [OF t, THEN conjunct1, THEN mp, OF h]
  show "\<exists>w' content'.
      prepend_number_to_second_line
        (fresh_world [] [Line ''7''] (File (''x'' @ [LF] @ ''abc'' @ [LF])) Missing) = (Inr (), w') \<and>
      tmp_file w' = File content' \<and> file_lines content' ! 1 = ''7 abc''"
    by blast
  have l1: "file_lines (''only'' @ [LF]) = [''only'']" by code_simp
  have h1: "length (file_lines (''only'' @ [LF])) = 1" unfolding l1 by simp
  from prepend_number_to_second_line_7 [OF t, THEN conjunct2, THEN mp, OF h1]
  show "\<exists>w' content'.
      prepend_number_to_second_line
        (fresh_world [] [Line ''7''] (File (''only'' @ [LF])) Missing) = (Inr (), w') \<and>
      tmp_file w' = File content' \<and> file_lines content' = [''only'', ''7 '']"
    unfolding l1 by simp
qed

lemma no_break_hello: "\<forall>c\<in>set ''hello''. \<not> is_linebreak c"
  by (simp add: is_linebreak_def py_ord_def)

lemma append_text_to_file_File:
  "tmp_file w = File content \<Longrightarrow>
   append_text_to_file s w =
     (Inr (), w\<lparr>tmp_file := File (content @ s @ [LF]),
               stdout := stdout w @ ''Appended your text to /tmp/pyref_example.txt'' @ [LF]\<rparr>)"
  by (simp add: append_text_to_file_def append_to_def io_bind_def io_print_def file_at_def
      set_file_def py_print_def py_write_def path_str_def)

text \<open>
  C6, as the code has it. \<open>append_text_to_file\<close> writes the text and a newline at the end
  of the file. If the file has two lines and its text ends with a line break, the file
  afterwards has one line more, and the new last line is \<open>hello\<close>.
\<close>

theorem append_text_to_file_adds_line:
  assumes "tmp_file w = File content" and "length (file_lines content) = 2"
    and "is_linebreak (last content)"
  shows "\<exists>w' content'. append_text_to_file ''hello'' w = (Inr (), w') \<and>
           tmp_file w' = File content' \<and>
           length (file_lines content') = length (file_lines content) + 1 \<and>
           last (file_lines content') = ''hello'' \<and>
           file_lines content' = file_lines content @ [''hello'']"
proof -
  have ne: "content \<noteq> []" using assms(2) by (auto simp: file_lines_def)
  have "file_lines (content @ ''hello'' @ [LF]) = file_lines content @ [''hello'']"
    by (rule file_lines_append_line [OF ne assms(3) no_break_hello]) simp
  then show ?thesis
    by (simp add: append_text_to_file_File [OF assms(1)])
qed

theorem append_text_to_file_adds_line_witness:
  "\<exists>w' content'.
     append_text_to_file ''hello''
       (fresh_world [] [] (File (''a'' @ [LF] @ ''b'' @ [LF])) Missing) = (Inr (), w') \<and>
     tmp_file w' = File content' \<and> file_lines content' = [''a'', ''b'', ''hello'']"
proof -
  have l: "file_lines (''a'' @ [LF] @ ''b'' @ [LF]) = [''a'', ''b'']" by code_simp
  have "tmp_file (fresh_world [] [] (File (''a'' @ [LF] @ ''b'' @ [LF])) Missing)
          = File (''a'' @ [LF] @ ''b'' @ [LF])"
    by (simp add: fresh_world_def)
  from append_text_to_file_adds_line [OF this] show ?thesis
    unfolding l by auto
qed

text \<open>
  A file of two lines whose second line has no line break at its end: the call joins
  \<open>hello\<close> to that line, and the file has two lines still.
\<close>

theorem append_text_to_file_unterminated:
  "length (file_lines (''a'' @ [LF] @ ''b'')) = 2 \<and>
   fst (append_text_to_file ''hello'' (fresh_world [] [] (File (''a'' @ [LF] @ ''b'')) Missing))
     = Inr () \<and>
   tmp_file (snd (append_text_to_file ''hello''
       (fresh_world [] [] (File (''a'' @ [LF] @ ''b'')) Missing)))
     = File (''a'' @ [LF] @ ''bhello'' @ [LF]) \<and>
   file_lines (''a'' @ [LF] @ ''bhello'' @ [LF]) = [''a'', ''bhello'']"
proof -
  have "file_lines (''a'' @ [LF] @ ''b'') = [''a'', ''b'']"
    "file_lines (''a'' @ [LF] @ ''bhello'' @ [LF]) = [''a'', ''bhello'']"
    by code_simp+
  moreover have "tmp_file (fresh_world [] [] (File (''a'' @ [LF] @ ''b'')) Missing)
          = File (''a'' @ [LF] @ ''b'')"
    by (simp add: fresh_world_def)
  ultimately show ?thesis
    by (simp add: append_text_to_file_File)
qed

subsection \<open>Errors and interrupts in the main flow\<close>














end
